theory Spec2Isabelle
  imports Complex_Main "HOL-Library.Sublist" "HOL-Library.Product_Lexorder"
begin

section \<open>Shared Python conventions\<close>

text \<open>
  The repository is Python. Exceptions are values of \<open>error\<close>; a function that can raise
  returns \<open>error + 'a\<close> with \<open>Inl\<close> for the exception. Python's unbounded integers are
  \<open>int\<close>. Strings are \<open>string\<close>, restricted to ASCII text (one \<open>char\<close> per code point).
  Floating-point coordinates and fractions are idealised as exact numbers (\<open>real\<close>, \<open>rat\<close>).
\<close>

datatype error = ValueError | TypeError | IndexError | ZeroDivisionError

text \<open>\<^verbatim>\<open>xs[a:b]\<close> for integer bounds: a negative bound counts from the end, both are clipped.\<close>

definition slice_bound :: "nat \<Rightarrow> int \<Rightarrow> nat" where
  "slice_bound n i = (if i < 0 then nat (max 0 (i + int n)) else min (nat i) n)"

definition py_slice :: "'a list \<Rightarrow> int \<Rightarrow> int \<Rightarrow> 'a list" where
  "py_slice xs a b = take (slice_bound (length xs) b - slice_bound (length xs) a)
                          (drop (slice_bound (length xs) a) xs)"

text \<open>\<^verbatim>\<open>sep.join(parts)\<close>.\<close>

fun join :: "string \<Rightarrow> string list \<Rightarrow> string" where
  "join sep [] = []"
| "join sep [x] = x"
| "join sep (x # y # ys) = x @ sep @ join sep (y # ys)"

text \<open>\<^verbatim>\<open>int(x)\<close> on a number truncates towards zero.\<close>

definition py_int :: "rat \<Rightarrow> int" where
  "py_int x = (if 0 \<le> x then \<lfloor>x\<rfloor> else \<lceil>x\<rceil>)"

section \<open>text_preparation.py: split_text_into_balanced_parts\<close>

text \<open>
  The tokenizer (tiktoken's \<^verbatim>\<open>cl100k_base\<close>) is an external library: \<open>encode\<close> and
  \<open>decode\<close> are parameters. The two environment settings are the arguments
  \<open>max_tokens_per_part\<close> and \<open>overlap_percentage\<close>.
\<close>

record 'tok encoding =
  encode :: "string \<Rightarrow> 'tok list"
  decode :: "'tok list \<Rightarrow> string"

text \<open>
  The \<^verbatim>\<open>for i in range(num_parts)\<close> loop, as the list of \<open>(start_idx, end_idx)\<close> pairs
  it slices \<^verbatim>\<open>all_tokens\<close> with, in order.
\<close>

function parts_loop :: "int \<Rightarrow> int \<Rightarrow> int \<Rightarrow> int \<Rightarrow> int \<Rightarrow> int \<Rightarrow> (int \<times> int) list" where
  "parts_loop total_tokens overlap_tokens balanced_tokens_per_part num_parts i start_idx =
     (if num_parts \<le> i then []
      else
        let end_idx = (if i = num_parts - 1 then total_tokens
                       else min (start_idx + balanced_tokens_per_part) total_tokens)
        in (start_idx, end_idx) #
           (if total_tokens \<le> end_idx then []
            else parts_loop total_tokens overlap_tokens balanced_tokens_per_part num_parts
                   (i + 1) (max 0 (end_idx - overlap_tokens))))"
  by pat_completeness auto
termination
  by (relation "measure (\<lambda>(t, ov, b, n, i, s). nat (n - i))") auto

declare parts_loop.simps [simp del]

text \<open>Lines 143 to 160: overlap, effective size, number of parts, balanced size.\<close>

definition part_ranges :: "int \<Rightarrow> rat \<Rightarrow> int \<Rightarrow> error + (int \<times> int) list" where
  "part_ranges max_tokens_per_part overlap_percentage total_tokens =
     (let overlap_tokens = py_int (of_int max_tokens_per_part * overlap_percentage);
          effective_tokens_per_part = max_tokens_per_part - overlap_tokens
      in if effective_tokens_per_part = 0 then Inl ZeroDivisionError
         else
           let num_parts = (total_tokens - overlap_tokens + effective_tokens_per_part - 1)
                             div effective_tokens_per_part
           in if num_parts = 0 then Inl ZeroDivisionError
              else
                let balanced_tokens_per_part =
                      (total_tokens + (num_parts - 1) * overlap_tokens) div num_parts
                in Inr (parts_loop total_tokens overlap_tokens balanced_tokens_per_part
                          num_parts 0 0))"

definition split_text_into_balanced_parts ::
  "'tok encoding \<Rightarrow> int \<Rightarrow> rat \<Rightarrow> string \<Rightarrow> error + string list" where
  "split_text_into_balanced_parts encoding max_tokens_per_part overlap_percentage text =
     (if text = [] then Inr []
      else if max_tokens_per_part \<le> 0 then Inl ValueError
      else if \<not> (0 \<le> overlap_percentage \<and> overlap_percentage < 1) then Inl ValueError
      else
        let all_tokens = encode encoding text;
            total_tokens = int (length all_tokens)
        in if total_tokens \<le> max_tokens_per_part then Inr [text]
           else
             (case part_ranges max_tokens_per_part overlap_percentage total_tokens of
                Inl e \<Rightarrow> Inl e
              | Inr ranges \<Rightarrow>
                  Inr (map (\<lambda>(start_idx, end_idx).
                         decode encoding (py_slice all_tokens start_idx end_idx)) ranges)))"

text \<open>The one-character-per-token encoding, used to run the function on concrete texts.\<close>

definition char_encoding :: "char encoding" where
  "char_encoding = \<lparr>encode = (\<lambda>s. s), decode = (\<lambda>ts. ts)\<rparr>"

section \<open>Strings and the regular expressions the code uses\<close>

subsection \<open>Character classes and \<^verbatim>\<open>str.lower\<close> (ASCII)\<close>

definition lower_char :: "char \<Rightarrow> char" where
  "lower_char c = (let n = (of_char c :: nat) in if 65 \<le> n \<and> n \<le> 90 then char_of (n + 32) else c)"

definition lower :: "string \<Rightarrow> string" where
  "lower s = map lower_char s"

text \<open>\<^verbatim>\<open>\w\<close>: letters, digits and the underscore.\<close>

definition is_word_char :: "char \<Rightarrow> bool" where
  "is_word_char c = (let n = (of_char c :: nat) in
     (48 \<le> n \<and> n \<le> 57) \<or> (65 \<le> n \<and> n \<le> 90) \<or> (97 \<le> n \<and> n \<le> 122) \<or> n = 95)"

text \<open>\<^verbatim>\<open>\d\<close> and \<^verbatim>\<open>\s\<close>.\<close>

definition is_digit_char :: "char \<Rightarrow> bool" where
  "is_digit_char c = (let n = (of_char c :: nat) in 48 \<le> n \<and> n \<le> 57)"

definition is_space_char :: "char \<Rightarrow> bool" where
  "is_space_char c = (let n = (of_char c :: nat) in (9 \<le> n \<and> n \<le> 13) \<or> (28 \<le> n \<and> n \<le> 32))"

subsection \<open>Patterns of the form \<^verbatim>\<open>\b(?:k1|k2|...)\b\<close> over escaped literals\<close>

text \<open>\<^verbatim>\<open>\b\<close> at offset \<open>p\<close>: exactly one of the characters before and at \<open>p\<close> is a word character.\<close>

definition word_boundary :: "string \<Rightarrow> nat \<Rightarrow> bool" where
  "word_boundary s p =
     ((0 < p \<and> p \<le> length s \<and> is_word_char (s ! (p - 1))) \<noteq> (p < length s \<and> is_word_char (s ! p)))"

text \<open>The literal \<open>k\<close> read at offset \<open>p\<close>; \<open>ic\<close> is the flag \<^verbatim>\<open>re.IGNORECASE\<close>.\<close>

definition literal_at :: "bool \<Rightarrow> string \<Rightarrow> nat \<Rightarrow> string \<Rightarrow> bool" where
  "literal_at ic s p k =
     (p + length k \<le> length s \<and>
      (if ic then lower (take (length k) (drop p s)) = lower k
       else take (length k) (drop p s) = k))"

definition alternative_at :: "bool \<Rightarrow> string \<Rightarrow> nat \<Rightarrow> string \<Rightarrow> bool" where
  "alternative_at ic s p k =
     (word_boundary s p \<and> literal_at ic s p k \<and> word_boundary s (p + length k))"

text \<open>
  \<^verbatim>\<open>"|".join(map(re.escape, keywords))\<close>: the alternatives in order; the join of no keyword
  is the empty pattern, which is one empty alternative.
\<close>

definition alternatives :: "string list \<Rightarrow> string list" where
  "alternatives keywords = (if keywords = [] then [[]] else keywords)"

text \<open>
  A match attempt at offset \<open>p\<close> takes the first alternative that succeeds there. After an
  empty match the scanner \<open>must_advance\<close>: at the offset where it resumes, an empty match is
  refused.
\<close>

definition match_at :: "bool \<Rightarrow> string list \<Rightarrow> string \<Rightarrow> nat \<Rightarrow> bool \<Rightarrow> string option" where
  "match_at ic alts s p must_advance =
     find (\<lambda>k. alternative_at ic s p k \<and> (must_advance \<longrightarrow> k \<noteq> [])) alts"


text \<open>\<^verbatim>\<open>pattern.finditer\<close>: the non-overlapping matches from left to right.\<close>

function finditer_from :: "bool \<Rightarrow> string list \<Rightarrow> string \<Rightarrow> nat \<Rightarrow> bool \<Rightarrow> (nat \<times> nat) list" where
  "finditer_from ic alts s pos must_advance =
     (if length s < pos then []
      else (case match_at ic alts s pos must_advance of
              Some k \<Rightarrow> (pos, pos + length k) # finditer_from ic alts s (pos + length k) (k = [])
            | None \<Rightarrow> finditer_from ic alts s (Suc pos) False))"
  by pat_completeness auto
termination
proof (relation "measure (\<lambda>(ic, alts, s, pos, adv). 2 * (Suc (length s) - pos) + (if adv then 0 else 1))",
       goal_cases)
  case 1
  show ?case by simp
next
  case (2 ic alts s pos must_advance)
  then show ?case by auto
next
  case (3 ic alts s pos must_advance k)
  from 3(2) have "alternative_at ic s pos k" "must_advance \<longrightarrow> k \<noteq> []"
    by (auto simp: match_at_def find_Some_iff)
  then have le: "pos + length k \<le> length s" and adv: "must_advance \<longrightarrow> 0 < length k"
    by (auto simp: alternative_at_def literal_at_def)
  show ?case
  proof (cases "k = []")
    case True
    with adv show ?thesis by simp
  next
    case False
    then obtain m where "length k = Suc m" by (cases k) auto
    with le show ?thesis by auto
  qed
qed

declare finditer_from.simps [simp del]

definition finditer :: "bool \<Rightarrow> string list \<Rightarrow> string \<Rightarrow> (nat \<times> nat) list" where
  "finditer ic alts s = finditer_from ic alts s 0 False"

section \<open>text_preparation.py: KeywordContextFinder\<close>

text \<open>The compiled pattern is kept as its list of alternatives; it is always case-insensitive.\<close>

record keyword_context_finder =
  window :: int
  pattern :: "string list"

text \<open>\<^verbatim>\<open>__init__(self, keywords, window=1200)\<close>.\<close>

definition KeywordContextFinder :: "string list \<Rightarrow> int \<Rightarrow> keyword_context_finder" where
  "KeywordContextFinder keywords window_arg = \<lparr>window = 4000, pattern = alternatives keywords\<rparr>"

text \<open>
  The loop of \<^verbatim>\<open>_process_contexts\<close>: the state is the pending interval
  \<open>(current_start, current_end)\<close>, \<open>None\<close> before the first match, and the contexts flushed
  so far.
\<close>

fun contexts_loop ::
  "int \<Rightarrow> string \<Rightarrow> (nat \<times> nat) list \<Rightarrow> (int \<times> int) option \<Rightarrow> string list \<Rightarrow> string list" where
  "contexts_loop w text [] current contexts =
     (case current of
        None \<Rightarrow> contexts
      | Some (current_start, current_end) \<Rightarrow> contexts @ [py_slice text current_start current_end])"
| "contexts_loop w text ((start, end) # matches) current contexts =
     (let context_start = max 0 (int start - w);
          context_end = min (int (length text)) (int end + w)
      in case current of
           None \<Rightarrow> contexts_loop w text matches (Some (context_start, context_end)) contexts
         | Some (current_start, current_end) \<Rightarrow>
             if context_start \<le> current_end
             then contexts_loop w text matches
                    (Some (current_start, max current_end context_end)) contexts
             else contexts_loop w text matches (Some (context_start, context_end))
                    (contexts @ [py_slice text current_start current_end]))"

text \<open>\<^verbatim>\<open>context.replace("\n", " ")\<close>.\<close>

definition replace_newlines :: "string \<Rightarrow> string" where
  "replace_newlines s = map (\<lambda>c. if c = CHR 0x0A then CHR '' '' else c) s"

definition process_contexts :: "keyword_context_finder \<Rightarrow> string \<Rightarrow> (nat \<times> nat) list \<Rightarrow> string" where
  "process_contexts self text matches =
     join '' '' (map replace_newlines (contexts_loop (window self) text matches None []))"

definition find_contexts :: "keyword_context_finder \<Rightarrow> string \<Rightarrow> string" where
  "find_contexts self text =
     (if text = [] then []
      else
        let matches = finditer True (pattern self) text
        in if matches = [] then [] else process_contexts self text matches)"

text \<open>The keyword list of \<^verbatim>\<open>find_text_surrounding_keywords\<close>; \<open>window\<close> is the value of \<^verbatim>\<open>PART_SIZE\<close>.\<close>

definition location_keywords :: "string list" where
  "location_keywords =
     [''study area'', ''study site'', ''field area'', ''sampling site'', ''sample location'',
      ''province of'', ''district of'', ''county of'', ''city of'', ''town of'', ''village of'',
      ''basin'', ''formation'', ''complex'', ''range'',
      ''outcrop at'', ''exposed at'', ''collected from'', ''located in'', ''situated in'',
      ''region of'', ''area of'']"

definition find_text_surrounding_keywords :: "int \<Rightarrow> string \<Rightarrow> string" where
  "find_text_surrounding_keywords window_arg text =
     find_contexts (KeywordContextFinder location_keywords window_arg) text"

section \<open>abstract_extractor.py\<close>

text \<open>
  A word of \<^verbatim>\<open>page.get_text("words")\<close>: \<^verbatim>\<open>word[0]\<close> to \<^verbatim>\<open>word[3]\<close> are the box
  \<open>(x0, y0, x1, y1)\<close>, \<^verbatim>\<open>word[4]\<close> is the text.
\<close>

record word =
  w_x0 :: real
  w_y0 :: real
  w_x1 :: real
  w_y1 :: real
  w_text :: string

text \<open>
  The loop of \<^verbatim>\<open>bbox_calculator\<close> from index \<open>i\<close>, on the words from \<open>i\<close> on. When no
  pair of neighbours breaks, the result is \<^verbatim>\<open>len(bbox) - 1\<close>: the index of the last word,
  and \<open>-1\<close> for the empty list, on which the loop body never runs.
\<close>

fun bbox_scan :: "word list \<Rightarrow> int \<Rightarrow> int" where
  "bbox_scan (a # b # rest) i =
     (let right_x = w_x1 a; right_y = w_y1 a; left_x = w_x0 b; left_y = w_y0 b
      in if \<bar>right_x - left_x\<bar> > 20 \<and> \<bar>left_y - right_y\<bar> > 5 then i
         else bbox_scan (b # rest) (i + 1))"
| "bbox_scan [a] i = i"
| "bbox_scan [] i = i - 1"

definition bbox_calculator :: "word list \<Rightarrow> int" where
  "bbox_calculator bbox = bbox_scan bbox 0"

text \<open>\<^verbatim>\<open>next((i for i, x in enumerate(xs) if P x), None)\<close>.\<close>

fun first_index :: "('a \<Rightarrow> bool) \<Rightarrow> 'a list \<Rightarrow> nat option" where
  "first_index P [] = None"
| "first_index P (x # xs) = (if P x then Some 0 else map_option Suc (first_index P xs))"

text \<open>Method 1: the keyword is a substring of one word.\<close>

definition keyword_in_word :: "string \<Rightarrow> word list \<Rightarrow> nat option" where
  "keyword_in_word keyword page_text =
     first_index (\<lambda>w. sublist (lower keyword) (lower (w_text w))) page_text"

text \<open>Method 2: consecutive words spell the keyword; the index is that of the last of them.\<close>

definition keyword_spelled :: "string \<Rightarrow> word list \<Rightarrow> nat option" where
  "keyword_spelled keyword page_text =
     (let keyword_length = length keyword
      in map_option (\<lambda>i. i + (keyword_length - 1))
           (find (\<lambda>i. concat (map (\<lambda>w. lower (w_text w))
                                 (py_slice page_text (int i) (int (i + keyword_length))))
                        = lower keyword)
                 [0..<nat (int (length page_text) - (int keyword_length - 1))]))"

text \<open>The loop over the keywords: the first keyword found by either method decides.\<close>

fun abstract_start :: "string list \<Rightarrow> word list \<Rightarrow> nat option" where
  "abstract_start [] page_text = None"
| "abstract_start (keyword # keywords) page_text =
     (case keyword_in_word keyword page_text of
        Some start_idx \<Rightarrow> Some start_idx
      | None \<Rightarrow> (case keyword_spelled keyword page_text of
                   Some idx \<Rightarrow> Some idx
                 | None \<Rightarrow> abstract_start keywords page_text))"

definition abstract_extractor :: "word list \<Rightarrow> string" where
  "abstract_extractor page_text =
     (case abstract_start [''abstract'', ''resumen''] page_text of
        Some abstract_start_index \<Rightarrow>
          let abstract_text = drop (abstract_start_index + 1) page_text;
              abstract_end_idx = bbox_calculator abstract_text
          in join '' '' (map w_text (py_slice abstract_text 0 (abstract_end_idx + 1)))
      | None \<Rightarrow> [])"

section \<open>table_extractor.py\<close>

text \<open>
  What the code reads of a \<^verbatim>\<open>fitz.Page\<close>: its plain text, the text blocks with lines and
  spans, the vector drawings, the words, the page rectangle and the page number.
\<close>

type_synonym rect = "real \<times> real \<times> real \<times> real"

record span =
  span_text :: string
  span_bbox :: rect

record text_line =
  line_dir :: "(real \<times> real) option"
  line_spans :: "span list"

record block =
  block_type :: int
  block_lines :: "text_line list"

text \<open>A drawing item: \<^verbatim>\<open>("re", rect)\<close>, \<^verbatim>\<open>("l", p1, p2)\<close>, or any other kind.\<close>

datatype drawing_item = Re rect | Ln "real \<times> real" "real \<times> real" | OtherItem

record page =
  p_raw_text :: string
  p_blocks :: "block list"
  p_drawings :: "drawing_item list list"
  p_words :: "word list"
  p_width :: real
  p_height :: real
  p_number :: int

text \<open>\<open>line_coordinates\<close> is a list of \<open>[bbox, page.number]\<close>, or the string \<^verbatim>\<open>"vertical"\<close>.\<close>

datatype line_coordinates = Lines "(rect \<times> int) list" | Vertical

text \<open>Every span of every text block (type 0), with the direction of its line.\<close>

definition page_spans :: "page \<Rightarrow> ((real \<times> real) \<times> span) list" where
  "page_spans p =
     concat (map (\<lambda>b. if block_type b = 0
                       then concat (map (\<lambda>l. map (\<lambda>sp. (case line_dir l of None \<Rightarrow> (1, 0) | Some d \<Rightarrow> d, sp))
                                                  (line_spans l))
                                        (block_lines b))
                       else [])
                 (p_blocks p))"

definition horizontal_count :: "page \<Rightarrow> nat" where
  "horizontal_count p = length (filter (\<lambda>(dir_angle, sp). dir_angle = (1, 0)) (page_spans p))"

definition vertical_count :: "page \<Rightarrow> nat" where
  "vertical_count p =
     length (filter (\<lambda>(dir_angle, sp). dir_angle \<noteq> (1, 0) \<and> dir_angle = (0, -1)) (page_spans p))"

text \<open>The table anchors \<open>[span text, span top, page number]\<close>; \<open>pat\<close> is \<^verbatim>\<open>pattern.fullmatch\<close>.\<close>

definition table_anchors :: "page \<Rightarrow> (string \<Rightarrow> bool) \<Rightarrow> (string \<times> real \<times> int) list" where
  "table_anchors p pat =
     map (\<lambda>(dir_angle, sp). (span_text sp, fst (snd (span_bbox sp)), p_number p))
         (filter (\<lambda>(dir_angle, sp). pat (span_text sp)) (page_spans p))"

definition rule_lines :: "page \<Rightarrow> (rect \<times> int) list" where
  "rule_lines p =
     concat (map (\<lambda>item.
               (case (case item of Re r \<Rightarrow> Some r
                              | Ln (ax, ay) (bx, by) \<Rightarrow> Some (ax, ay, bx, by)
                              | OtherItem \<Rightarrow> None) of
                  None \<Rightarrow> []
                | Some (x0, y0, x1, y1) \<Rightarrow>
                    let bbox = (x0 - 1, y0 - 1, x1 + 1, y1 + 1)
                    in if 50 < y0 - 1 \<and> y0 - 1 < 720 \<and> \<bar>(y0 - 1) - (y1 + 1)\<bar> < 10
                       then [(bbox, p_number p)] else []))
             (concat (p_drawings p)))"

definition extract_table_data ::
  "page \<Rightarrow> (string \<Rightarrow> bool) \<Rightarrow> (line_coordinates \<times> (string \<times> real \<times> int) list) option" where
  "extract_table_data p pat =
     (if \<not> sublist ''Table'' (p_raw_text p) then None
      else
        let table_coordinates = table_anchors p pat;
            line_coordinates = (if horizontal_count p < vertical_count p then Vertical
                                else Lines (rule_lines p))
        in if line_coordinates \<noteq> Lines [] \<and> table_coordinates \<noteq> []
           then Some (line_coordinates, table_coordinates) else None)"

text \<open>A \<^verbatim>\<open>defaultdict(list)\<close> filled by appending, as an association list in insertion order.\<close>

fun dict_append :: "('k \<times> 'v list) list \<Rightarrow> 'k \<Rightarrow> 'v \<Rightarrow> ('k \<times> 'v list) list" where
  "dict_append [] k v = [(k, [v])]"
| "dict_append ((k', vs) # d) k v =
     (if k' = k then (k', vs @ [v]) # d else (k', vs) # dict_append d k v)"

definition dict_get :: "('k \<times> 'v list) list \<Rightarrow> 'k \<Rightarrow> 'v list" where
  "dict_get d k = (case map_of d k of None \<Rightarrow> [] | Some vs \<Rightarrow> vs)"

text \<open>The inner \<^verbatim>\<open>while\<close> loops: lines within 2 units of the first line of a group are merged.\<close>

function merge_lines :: "rect list \<Rightarrow> rect list" where
  "merge_lines [] = []"
| "merge_lines (line # lines_sorted) =
     (let current_y = fst (snd line);
          current_group = line # takeWhile (\<lambda>l. \<bar>fst (snd l) - current_y\<bar> \<le> 2) lines_sorted;
          min_x1 = Min (set (map fst current_group));
          max_x2 = Max (set (map (\<lambda>l. fst (snd (snd l))) current_group))
      in (min_x1, current_y, max_x2, current_y)
         # merge_lines (dropWhile (\<lambda>l. \<bar>fst (snd l) - current_y\<bar> \<le> 2) lines_sorted))"
  by pat_completeness auto
termination
  by (relation "measure length") (auto simp: length_dropWhile_le less_Suc_eq_le)

definition group_table_elements ::
  "(rect \<times> int) list \<Rightarrow> (string \<times> real \<times> int) list \<Rightarrow> (rect list \<times> int) list" where
  "group_table_elements line_coordinates table_coordinates =
     (let tables_by_page = fold (\<lambda>t d. dict_append d (snd (snd t)) t) table_coordinates [];
          lines_by_page = fold (\<lambda>l d. dict_append d (snd l) (fst l)) line_coordinates [];
          merged_by_page = map (\<lambda>(pg, ls). (pg, merge_lines (sort_key (\<lambda>l. fst (snd l)) ls)))
                               lines_by_page
      in concat (map (\<lambda>(pg, tables).
                   let sorted_tables = sort_key (\<lambda>t. fst (snd t)) tables
                   in concat (map (\<lambda>i.
                        let table_y = fst (snd (sorted_tables ! i));
                            bbox = filter (\<lambda>l. table_y < fst (snd l) \<and>
                                     (i + 1 < length sorted_tables \<longrightarrow>
                                        fst (snd l) < fst (snd (sorted_tables ! (i + 1)))))
                                     (dict_get merged_by_page pg)
                        in if bbox \<noteq> [] then [(bbox, pg)] else [])
                      [0..<length sorted_tables]))
                 tables_by_page))"

text \<open>
  An element of the list \<^verbatim>\<open>extract_tables\<close> returns: a box \<open>[x0, y0, x1, y1]\<close>, with the page
  number as fifth element when \<^verbatim>\<open>create_table_bounding_boxes\<close> built it, or a bare page number,
  the second element of the full-page result \<^verbatim>\<open>[[0, 0, width, height], page.number]\<close>.
\<close>

datatype table_entry = Box real real real real "int option" | PageNo int

text \<open>Consecutive rectangles whose tops differ by at most 3 from the last of the group.\<close>

fun group_rectangles :: "rect list \<Rightarrow> rect list \<Rightarrow> rect list list" where
  "group_rectangles current_group [] = [current_group]"
| "group_rectangles current_group (r # rs) =
     (if \<bar>fst (snd r) - fst (snd (last current_group))\<bar> \<le> 3
      then group_rectangles (current_group @ [r]) rs
      else current_group # group_rectangles [r] rs)"

fun create_table_bounding_boxes :: "(rect list \<times> int) list \<Rightarrow> error + table_entry list" where
  "create_table_bounding_boxes [] = Inr []"
| "create_table_bounding_boxes ((page_rectangles, page_num) # rectangles) =
     (case sort_key (\<lambda>r. (fst (snd r), fst r)) page_rectangles of
        [] \<Rightarrow> Inl IndexError
      | r0 # rs \<Rightarrow>
          let grouped_rectangles = group_rectangles [r0] rs;
              x0 = fst (hd (hd grouped_rectangles));
              x1 = fst (snd (snd (hd (hd grouped_rectangles))));
              y0 = fst (snd (hd (hd grouped_rectangles)));
              y1 = fst (snd (hd (last grouped_rectangles)))
          in (case create_table_bounding_boxes rectangles of
                Inl e \<Rightarrow> Inl e
              | Inr final_tables \<Rightarrow> Inr (Box x0 y0 x1 y1 (Some page_num) # final_tables)))"

definition extract_tables :: "page \<Rightarrow> (string \<Rightarrow> bool) \<Rightarrow> error + table_entry list option" where
  "extract_tables p pat =
     (case extract_table_data p pat of
        None \<Rightarrow> Inr None
      | Some (line_coordinates, table_coordinates) \<Rightarrow>
          (case line_coordinates of
             Vertical \<Rightarrow> Inr (Some [Box 0 0 (p_width p) (p_height p) None,
                                     PageNo (p_number p)])
           | Lines ls \<Rightarrow>
               (case create_table_bounding_boxes (group_table_elements ls table_coordinates) of
                  Inl e \<Rightarrow> Inl e
                | Inr boxes \<Rightarrow> Inr (Some boxes))))"

text \<open>
  \<^verbatim>\<open>patterns("table_pattern").fullmatch\<close>, for
  \<^verbatim>\<open>^Table \d[:]?\s*$|^Table \d[:]?\s*\<close>: the text \<^verbatim>\<open>Table\<close>, a space, one digit, an
  optional colon, then white space only.
\<close>

definition table_pattern :: "string \<Rightarrow> bool" where
  "table_pattern s =
     (prefix ''Table '' s \<and>
      (case drop 6 s of
         [] \<Rightarrow> False
       | d # rest \<Rightarrow> is_digit_char d \<and>
           (case rest of
              [] \<Rightarrow> True
            | c # rest' \<Rightarrow> if c = CHR '':'' then list_all is_space_char rest'
                          else list_all is_space_char rest)))"

section \<open>text_extractor.py\<close>

text \<open>
  Slicing \<^verbatim>\<open>table[0:4]\<close> works on a box and raises \<^verbatim>\<open>TypeError\<close> on a bare page
  number. The loop returns at the first box that strictly contains the word.
\<close>

fun is_word_inside_any_table :: "word \<Rightarrow> table_entry list \<Rightarrow> error + bool" where
  "is_word_inside_any_table w [] = Inr False"
| "is_word_inside_any_table w (PageNo n # tables) = Inl TypeError"
| "is_word_inside_any_table w (Box t0 t1 t2 t3 pg # tables) =
     (if w_x0 w > t0 \<and> w_y0 w > t1 \<and> w_x1 w < t2 \<and> w_y1 w < t3 then Inr True
      else is_word_inside_any_table w tables)"

fun process_page_with_tables ::
  "word list \<Rightarrow> table_entry list \<Rightarrow> real \<Rightarrow> real \<Rightarrow> error + string list" where
  "process_page_with_tables [] tables min_y max_y = Inr []"
| "process_page_with_tables (w # page_text) tables min_y max_y =
     (case is_word_inside_any_table w tables of
        Inl e \<Rightarrow> Inl e
      | Inr inside \<Rightarrow>
          (case process_page_with_tables page_text tables min_y max_y of
             Inl e \<Rightarrow> Inl e
           | Inr page_text_without_tables \<Rightarrow>
               Inr (if \<not> inside \<and> min_y < w_y0 w \<and> w_y0 w < max_y
                    then w_text w # page_text_without_tables
                    else page_text_without_tables)))"

definition process_page :: "page \<Rightarrow> word list \<Rightarrow> error + string list" where
  "process_page p page_text =
     (case extract_tables p table_pattern of
        Inl e \<Rightarrow> Inl e
      | Inr extracted_tables \<Rightarrow>
          let page_height = p_height p;
              min_y = page_height * 0.05;
              max_y = page_height * 0.95
          in (case extracted_tables of
                Some (t # ts) \<Rightarrow> process_page_with_tables page_text (t # ts) min_y max_y
              | _ \<Rightarrow> Inr (map w_text (filter (\<lambda>w. min_y < w_y0 w \<and> w_y0 w < max_y) page_text))))"















section \<open>Predicates and sample inputs used in the statements\<close>

text \<open>A table entry that is a box, and a word all four edges of which are strictly inside it.\<close>

definition is_box :: "table_entry \<Rightarrow> bool" where
  "is_box t = (case t of Box t0 t1 t2 t3 pg \<Rightarrow> True | PageNo n \<Rightarrow> False)"

definition word_strictly_inside :: "word \<Rightarrow> table_entry \<Rightarrow> bool" where
  "word_strictly_inside w t =
     (case t of
        Box t0 t1 t2 t3 pg \<Rightarrow> t0 < w_x0 w \<and> t1 < w_y0 w \<and> w_x1 w < t2 \<and> w_y1 w < t3
      | PageNo n \<Rightarrow> False)"


text \<open>
  A first page: the word \<^verbatim>\<open>Abstract\<close>, ten body words on one line, each starting where the
  previous one ends, and two candidates for the word that follows: a heading on a lower
  line, and a heading 50 units to the right whose top is 2 units above the bottom of the
  last body word.
\<close>

definition sample_abstract_word :: word where
  "sample_abstract_word = \<lparr>w_x0 = 50, w_y0 = 80, w_x1 = 100, w_y1 = 90, w_text = ''Abstract''\<rparr>"

definition sample_body :: "word list" where
  "sample_body =
     [\<lparr>w_x0 = 50, w_y0 = 100, w_x1 = 70, w_y1 = 110, w_text = ''a''\<rparr>,
      \<lparr>w_x0 = 70, w_y0 = 100, w_x1 = 90, w_y1 = 110, w_text = ''b''\<rparr>,
      \<lparr>w_x0 = 90, w_y0 = 100, w_x1 = 110, w_y1 = 110, w_text = ''c''\<rparr>,
      \<lparr>w_x0 = 110, w_y0 = 100, w_x1 = 130, w_y1 = 110, w_text = ''d''\<rparr>,
      \<lparr>w_x0 = 130, w_y0 = 100, w_x1 = 150, w_y1 = 110, w_text = ''e''\<rparr>,
      \<lparr>w_x0 = 150, w_y0 = 100, w_x1 = 170, w_y1 = 110, w_text = ''f''\<rparr>,
      \<lparr>w_x0 = 170, w_y0 = 100, w_x1 = 190, w_y1 = 110, w_text = ''g''\<rparr>,
      \<lparr>w_x0 = 190, w_y0 = 100, w_x1 = 210, w_y1 = 110, w_text = ''h''\<rparr>,
      \<lparr>w_x0 = 210, w_y0 = 100, w_x1 = 230, w_y1 = 110, w_text = ''i''\<rparr>,
      \<lparr>w_x0 = 230, w_y0 = 100, w_x1 = 250, w_y1 = 110, w_text = ''j''\<rparr>]"

definition sample_heading_below :: word where
  "sample_heading_below =
     \<lparr>w_x0 = 50, w_y0 = 140, w_x1 = 130, w_y1 = 150, w_text = ''Introduction''\<rparr>"

definition sample_heading_beside :: word where
  "sample_heading_beside =
     \<lparr>w_x0 = 300, w_y0 = 108, w_x1 = 380, w_y1 = 118, w_text = ''Introduction''\<rparr>"



text \<open>
  A page with the caption \<^verbatim>\<open>Table 1\<close> at height 90 and two horizontal rules at heights 120
  and 200 from 50 to 300; the detected table box is \<open>(49, 119, 301, 199)\<close>. Its words: one in
  the top margin, one inside the box, one that crosses the right edge of the box, one whose
  left edge lies on the left edge of the box, one below the box, one in the bottom margin.
\<close>

definition sample_table_page :: page where
  "sample_table_page =
     \<lparr>p_raw_text = ''Journal Table 1 inside overlap touch body 7'',
      p_blocks = [\<lparr>block_type = 0,
                   block_lines = [\<lparr>line_dir = Some (1, 0),
                                   line_spans = [\<lparr>span_text = ''Table 1'', span_bbox = (50, 90, 100, 100)\<rparr>]\<rparr>]\<rparr>],
      p_drawings = [[Ln (50, 120) (300, 120)], [Ln (50, 200) (300, 200)]],
      p_words = [\<lparr>w_x0 = 50, w_y0 = 10, w_x1 = 100, w_y1 = 20, w_text = ''Journal''\<rparr>,
                 \<lparr>w_x0 = 100, w_y0 = 130, w_x1 = 150, w_y1 = 140, w_text = ''inside''\<rparr>,
                 \<lparr>w_x0 = 280, w_y0 = 130, w_x1 = 320, w_y1 = 140, w_text = ''overlap''\<rparr>,
                 \<lparr>w_x0 = 49, w_y0 = 150, w_x1 = 90, w_y1 = 160, w_text = ''touch''\<rparr>,
                 \<lparr>w_x0 = 50, w_y0 = 300, w_x1 = 90, w_y1 = 310, w_text = ''body''\<rparr>,
                 \<lparr>w_x0 = 50, w_y0 = 770, w_x1 = 60, w_y1 = 780, w_text = ''7''\<rparr>],
      p_width = 600, p_height = 800, p_number = 2\<rparr>"


section \<open>Properties of the token chunker\<close>

lemma parts_loop_props:
  assumes "0 \<le> ov" "ov \<le> b" "0 \<le> s" "s \<le> T" "i < n"
  shows "let rs = parts_loop T ov b n i s in
           rs \<noteq> [] \<and> fst (hd rs) = s \<and> snd (last rs) = T
         \<and> (\<forall>k. Suc k < length rs \<longrightarrow> fst (rs ! Suc k) = snd (rs ! k) - ov)
         \<and> (\<forall>(a, e) \<in> set rs. 0 \<le> a \<and> a \<le> e \<and> e \<le> T)
         \<and> (\<forall>t. s \<le> t \<and> t < T \<longrightarrow> (\<exists>(a, e) \<in> set rs. a \<le> t \<and> t < e))"
  using assms
proof (induction T ov b n i s rule: parts_loop.induct)
  case (1 T ov b n i s)
  define e where "e = (if i = n - 1 then T else min (s + b) T)"
  show ?case
  proof (cases "T \<le> e")
    case True
    then have eq: "e = T" using 1 by (auto simp: e_def split: if_splits)
    have "parts_loop T ov b n i s = [(s, T)]"
      using 1(6) eq True by (subst parts_loop.simps) (simp add: e_def Let_def)
    then show ?thesis using 1 by auto
  next
    case False
    then have ne: "i \<noteq> n - 1" and e: "e = s + b" "s + b < T" by (auto simp: e_def split: if_splits)
    define s' where "s' = max 0 (e - ov)"
    have s': "s' = e - ov" "0 \<le> s'" "s' \<le> e" "s' \<le> T" using 1 e by (auto simp: s'_def)
    define rs where "rs = parts_loop T ov b n (i + 1) s'"
    have unf: "parts_loop T ov b n i s = (s, e) # rs"
      using 1(6) False by (subst parts_loop.simps) (simp add: e_def Let_def rs_def s'_def)
    have "i + 1 < n" using ne 1(6) by auto
    from "1.IH"[OF _ e_def False, folded s'_def, OF _ 1(2,3) s'(2,4) this] 1(6)
    have IH: "rs \<noteq> []" "fst (hd rs) = s'" "snd (last rs) = T"
        "\<And>k. Suc k < length rs \<Longrightarrow> fst (rs ! Suc k) = snd (rs ! k) - ov"
        "\<And>a e. (a, e) \<in> set rs \<Longrightarrow> 0 \<le> a \<and> a \<le> e \<and> e \<le> T"
        "\<And>t. s' \<le> t \<Longrightarrow> t < T \<Longrightarrow> (\<exists>(a, e) \<in> set rs. a \<le> t \<and> t < e)"
      by (auto simp: rs_def Let_def)
    have chain: "fst (((s, e) # rs) ! Suc k) = snd (((s, e) # rs) ! k) - ov"
      if "Suc k < length ((s, e) # rs)" for k
    proof (cases k)
      case 0
      then show ?thesis using IH(1,2) s'(1) by (simp add: hd_conv_nth)
    next
      case (Suc j)
      then show ?thesis using that IH(4)[of j] by simp
    qed
    have cover: "\<exists>(a, e') \<in> set ((s, e) # rs). a \<le> t \<and> t < e'" if "s \<le> t" "t < T" for t
    proof (cases "t < e")
      case True
      then show ?thesis using that by auto
    next
      case False
      then have "s' \<le> t" using s' by auto
      from IH(6)[OF this that(2)] show ?thesis by auto
    qed
    have valid: "\<forall>(a, e') \<in> set ((s, e) # rs). 0 \<le> a \<and> a \<le> e' \<and> e' \<le> T"
      using IH(5) 1 e by auto
    show ?thesis
      unfolding unf Let_def using IH(1,3) chain cover valid by auto
  qed
qed


lemma overlap_tokens_bounds:
  assumes "0 < M" "0 \<le> f" "f < 1"
  shows "0 \<le> py_int (of_int M * f)" "py_int (of_int M * f) < M"
proof -
  have nn: "0 \<le> of_int M * f" using assms by simp
  then show "0 \<le> py_int (of_int M * f)" by (simp add: py_int_def)
  have "of_int M * f < of_int M" using assms by simp
  then have "\<lfloor>of_int M * f\<rfloor> < M" by (simp add: floor_less_iff)
  with nn show "py_int (of_int M * f) < M" by (simp add: py_int_def)
qed

lemma num_parts_ge_2:
  fixes ov M T :: int
  assumes "0 \<le> ov" "ov < M" "M < T"
  shows "2 \<le> (T - ov + (M - ov) - 1) div (M - ov)"
proof -
  define e where "e = M - ov"
  have pos: "0 < e" using assms by (simp add: e_def)
  have "2 * e \<le> T - ov + e - 1" using assms by (simp add: e_def)
  then have le: "(2 * e) div e \<le> (T - ov + e - 1) div e"
    by (rule zdiv_mono1) (rule pos)
  have "(2 * e) div e = 2" using pos by simp
  with le show ?thesis unfolding e_def by linarith
qed

lemma balanced_ge_overlap:
  fixes n ov T :: int
  assumes "0 < n" "ov \<le> T"
  shows "ov \<le> (T + (n - 1) * ov) div n"
proof -
  have "n * ov \<le> T + (n - 1) * ov" using assms by (simp add: algebra_simps)
  then have le: "(n * ov) div n \<le> (T + (n - 1) * ov) div n"
    using assms(1) by (intro zdiv_mono1) auto
  have "(n * ov) div n = ov" using assms(1) by simp
  with le show ?thesis by linarith
qed

lemma part_ranges_valid:
  assumes "0 < M" "0 \<le> f" "f < 1" "M < T"
  shows "part_ranges M f T =
           Inr (parts_loop T (py_int (of_int M * f))
                  ((T + ((T - py_int (of_int M * f) + (M - py_int (of_int M * f)) - 1)
                           div (M - py_int (of_int M * f)) - 1) * py_int (of_int M * f))
                     div ((T - py_int (of_int M * f) + (M - py_int (of_int M * f)) - 1)
                            div (M - py_int (of_int M * f))))
                  ((T - py_int (of_int M * f) + (M - py_int (of_int M * f)) - 1)
                     div (M - py_int (of_int M * f))) 0 0)"
proof -
  define ov where "ov = py_int (of_int M * f)"
  have ov: "0 \<le> ov" "ov < M" using overlap_tokens_bounds[OF assms(1-3)] by (simp_all add: ov_def)
  have n: "2 \<le> (T - ov + (M - ov) - 1) div (M - ov)" using num_parts_ge_2[OF ov assms(4)] .
  show ?thesis
    unfolding part_ranges_def Let_def ov_def[symmetric] using ov n by auto
qed


text \<open>
  What the chunker does keep: the balanced size is at most the maximum, so every part but
  the last has at most \<open>max_tokens_per_part\<close> tokens.
\<close>

lemma parts_loop_widths:
  assumes "0 \<le> ov" "0 \<le> b" "0 \<le> s" "s \<le> T"
  shows "let rs = parts_loop T ov b n i s in
           \<forall>k. Suc k < length rs \<longrightarrow> snd (rs ! k) - fst (rs ! k) \<le> b"
  using assms
proof (induction T ov b n i s rule: parts_loop.induct)
  case (1 T ov b n i s)
  define e where "e = (if i = n - 1 then T else min (s + b) T)"
  show ?case
  proof (cases "n \<le> i \<or> T \<le> e")
    case True
    then have "length (parts_loop T ov b n i s) \<le> 1"
      by (subst parts_loop.simps) (auto simp: e_def Let_def)
    then show ?thesis by (simp add: Let_def)
  next
    case False
    define s' where "s' = max 0 (e - ov)"
    define rs where "rs = parts_loop T ov b n (i + 1) s'"
    have unf: "parts_loop T ov b n i s = (s, e) # rs"
      using False by (subst parts_loop.simps) (simp add: e_def Let_def rs_def s'_def)
    have eT: "e < T" using False by simp
    have width: "e - s \<le> b"
    proof (cases "i = n - 1")
      case True
      then have "e = T" by (simp add: e_def)
      with eT show ?thesis by simp
    next
      case False
      then show ?thesis by (simp add: e_def)
    qed
    have "s' \<le> T" "0 \<le> s'" using eT 1(2-5) by (auto simp: s'_def)
    with "1.IH"[OF _ e_def _ 1(2,3), folded s'_def] False
    have IH: "\<forall>k. Suc k < length rs \<longrightarrow> snd (rs ! k) - fst (rs ! k) \<le> b"
      by (simp add: rs_def Let_def)
    have "snd (((s, e) # rs) ! k) - fst (((s, e) # rs) ! k) \<le> b" if "Suc k < length ((s, e) # rs)" for k
    proof (cases k)
      case 0
      then show ?thesis using width by simp
    next
      case (Suc j)
      then show ?thesis using that IH by simp
    qed
    then show ?thesis unfolding unf Let_def by blast
  qed
qed

lemma balanced_le_max:
  fixes ov M T :: int
  assumes "0 \<le> ov" "ov < M" "M < T"
  defines "n \<equiv> (T - ov + (M - ov) - 1) div (M - ov)"
  shows "(T + (n - 1) * ov) div n \<le> M"
proof -
  define e where "e = M - ov"
  have pos: "0 < e" using assms by (simp add: e_def)
  have n2: "2 \<le> n" unfolding n_def using num_parts_ge_2[OF assms(1-3)] .
  have n_e: "n = (T - ov + e - 1) div e" by (simp add: n_def e_def)
  have "n * e + (T - ov + e - 1) mod e = T - ov + e - 1"
    unfolding n_e by (rule div_mult_mod_eq)
  moreover have "(T - ov + e - 1) mod e < e" using pos by (rule pos_mod_bound)
  ultimately have "T - ov \<le> n * e" by linarith
  then have "T + (n - 1) * ov \<le> n * M" by (simp add: e_def algebra_simps)
  then have "(T + (n - 1) * ov) div n \<le> (n * M) div n"
    using n2 by (intro zdiv_mono1) auto
  moreover have "(n * M) div n = M" using n2 by simp
  ultimately show ?thesis by linarith
qed

lemma non_final_parts_within_max:
  assumes "0 < M" "0 \<le> f" "f < 1" "M < T" "part_ranges M f T = Inr ranges"
    "Suc k < length ranges"
  shows "snd (ranges ! k) - fst (ranges ! k) \<le> M"
proof -
  define ov where "ov = py_int (of_int M * f)"
  define n where "n = (T - ov + (M - ov) - 1) div (M - ov)"
  define b where "b = (T + (n - 1) * ov) div n"
  have ov: "0 \<le> ov" "ov < M" using overlap_tokens_bounds[OF assms(1-3)] by (simp_all add: ov_def)
  have n2: "2 \<le> n" unfolding n_def using num_parts_ge_2[OF ov assms(4)] .
  have bo: "ov \<le> b" unfolding b_def using n2 ov assms(4) by (intro balanced_ge_overlap) auto
  have bM: "b \<le> M" unfolding b_def n_def using balanced_le_max[OF ov assms(4)] .
  have "ranges = parts_loop T ov b n 0 0"
    using part_ranges_valid[OF assms(1-4)] assms(5) by (simp add: ov_def n_def b_def)
  with parts_loop_widths[of ov b 0 T n 0] bo ov assms(1,4,6)
  have "snd (ranges ! k) - fst (ranges ! k) \<le> b" by (simp add: Let_def)
  with bM show ?thesis by linarith
qed

lemma py_slice_nonneg:
  "0 \<le> a \<Longrightarrow> 0 \<le> b \<Longrightarrow> py_slice xs a b = take (nat b - nat a) (drop (nat a) xs)"
  by (auto simp: py_slice_def slice_bound_def min_def)


text \<open>
  C1. The claim is that no returned chunk has more than \<open>max_tokens_per_part\<close> tokens, the
  final one included. This evaluates the function where the final chunk is larger: with a
  maximum of 10 tokens and no overlap, a text of 29 tokens is cut into parts of 9, 9 and 11
  tokens; with the default settings (maximum 10000, overlap 0.15), 26999 tokens are cut at
  the ranges below, the last of which holds 10001 tokens.
\<close>

theorem split_last_part_exceeds_max:
  "split_text_into_balanced_parts char_encoding 10 0 ''abcdefghijklmnopqrstuvwxyzABC''
     = Inr [''abcdefghi'', ''jklmnopqr'', ''stuvwxyzABC'']
   \<and> length (encode char_encoding ''stuvwxyzABC'') = 11
   \<and> part_ranges 10000 (15 / 100) 26999 = Inr [(0, 9999), (8499, 18498), (16998, 26999)]"
  by (simp add: split_text_into_balanced_parts_def char_encoding_def part_ranges_def py_int_def
        parts_loop.simps py_slice_def slice_bound_def)

text \<open>
  C2, as stated: an invalid configuration raises for every text, the empty one included.
  The check for the empty text comes first, so the empty text returns the empty list.
\<close>

theorem invalid_configuration_empty_text_counterexample:
  "split_text_into_balanced_parts char_encoding 0 (3 / 2) [] = Inr []
   \<and> split_text_into_balanced_parts char_encoding 0 (3 / 2) [] \<noteq> Inl ValueError"
  by (simp add: split_text_into_balanced_parts_def)

text \<open>
  C2, amended: for every non-empty text, a maximum that is not positive or an overlap
  fraction outside \<open>[0, 1)\<close> makes the function raise \<^verbatim>\<open>ValueError\<close>, whatever the
  tokenizer (nothing is tokenized, nothing is tried again); for the empty text the result is
  the empty list, whatever the configuration.
\<close>

theorem invalid_configuration_raises:
  "(text \<noteq> [] \<and> (max_tokens_per_part \<le> 0 \<or> \<not> (0 \<le> overlap_percentage \<and> overlap_percentage < 1))
      \<longrightarrow> split_text_into_balanced_parts encoding max_tokens_per_part overlap_percentage text
            = Inl ValueError)
   \<and> split_text_into_balanced_parts encoding max_tokens_per_part overlap_percentage [] = Inr []"
  by (simp add: split_text_into_balanced_parts_def)

theorem invalid_configuration_raises_witness:
  "''abc'' \<noteq> [] \<and> (0 :: int) \<le> 0 \<and> \<not> (0 \<le> (3 / 2 :: rat) \<and> (3 / 2 :: rat) < 1)
   \<and> split_text_into_balanced_parts char_encoding 0 (15 / 100) ''abc'' = Inl ValueError
   \<and> split_text_into_balanced_parts char_encoding 10 (3 / 2) ''abc'' = Inl ValueError"
  using invalid_configuration_raises [of "''abc''" 0 "15 / 100" char_encoding]
        invalid_configuration_raises [of "''abc''" 10 "3 / 2" char_encoding]
  by simp

text \<open>
  C10. For a non-empty text and a valid configuration: a text of at most
  \<open>max_tokens_per_part\<close> tokens is returned as the single part \<open>[text]\<close>. Otherwise the parts
  are the decoded slices of the token list at the ranges of \<open>part_ranges\<close>, and these ranges
  start at token 0, each next one starts at the previous end minus the overlap, the last one
  ends at the last token, each lies inside the token list, and every token position lies in
  one of them.
\<close>

theorem split_covers_all_tokens:
  fixes encoding :: "'tok encoding"
  assumes "text \<noteq> []" "0 < max_tokens_per_part" "0 \<le> overlap_percentage" "overlap_percentage < 1"
  defines "all_tokens \<equiv> encode encoding text"
  defines "total_tokens \<equiv> int (length all_tokens)"
  defines "overlap_tokens \<equiv> py_int (of_int max_tokens_per_part * overlap_percentage)"
  shows "(total_tokens \<le> max_tokens_per_part \<longrightarrow>
            split_text_into_balanced_parts encoding max_tokens_per_part overlap_percentage text = Inr [text])
       \<and> (max_tokens_per_part < total_tokens \<longrightarrow>
            (\<exists>ranges.
               part_ranges max_tokens_per_part overlap_percentage total_tokens = Inr ranges
             \<and> split_text_into_balanced_parts encoding max_tokens_per_part overlap_percentage text
                 = Inr (map (\<lambda>(start_idx, end_idx).
                              decode encoding (take (nat end_idx - nat start_idx)
                                                    (drop (nat start_idx) all_tokens))) ranges)
             \<and> ranges \<noteq> []
             \<and> fst (hd ranges) = 0
             \<and> (\<forall>k. Suc k < length ranges \<longrightarrow>
                    fst (ranges ! Suc k) = snd (ranges ! k) - overlap_tokens)
             \<and> snd (last ranges) = total_tokens
             \<and> (\<forall>(start_idx, end_idx) \<in> set ranges.
                    0 \<le> start_idx \<and> start_idx \<le> end_idx \<and> end_idx \<le> total_tokens)
             \<and> (\<forall>t. 0 \<le> t \<and> t < total_tokens \<longrightarrow>
                    (\<exists>(start_idx, end_idx) \<in> set ranges. start_idx \<le> t \<and> t < end_idx))))"
proof (intro conjI impI)
  assume "total_tokens \<le> max_tokens_per_part"
  then show "split_text_into_balanced_parts encoding max_tokens_per_part overlap_percentage text = Inr [text]"
    using assms(1-4) by (simp add: split_text_into_balanced_parts_def total_tokens_def all_tokens_def)
next
  assume big: "max_tokens_per_part < total_tokens"
  define num_parts where "num_parts = (total_tokens - overlap_tokens + (max_tokens_per_part - overlap_tokens) - 1)
                             div (max_tokens_per_part - overlap_tokens)"
  define balanced where "balanced = (total_tokens + (num_parts - 1) * overlap_tokens) div num_parts"
  define ranges where "ranges = parts_loop total_tokens overlap_tokens balanced num_parts 0 0"
  have ov: "0 \<le> overlap_tokens" "overlap_tokens < max_tokens_per_part"
    using overlap_tokens_bounds[OF assms(2-4)] by (simp_all add: overlap_tokens_def)
  have n: "2 \<le> num_parts" unfolding num_parts_def using num_parts_ge_2[OF ov big] .
  have b: "overlap_tokens \<le> balanced"
    unfolding balanced_def using n ov big by (intro balanced_ge_overlap) auto
  have pr: "part_ranges max_tokens_per_part overlap_percentage total_tokens = Inr ranges"
    using part_ranges_valid[OF assms(2-4) big]
    by (simp add: ranges_def balanced_def num_parts_def overlap_tokens_def)
  have props: "ranges \<noteq> []" "fst (hd ranges) = 0" "snd (last ranges) = total_tokens"
      "\<forall>k. Suc k < length ranges \<longrightarrow> fst (ranges ! Suc k) = snd (ranges ! k) - overlap_tokens"
      "\<forall>(a, e) \<in> set ranges. 0 \<le> a \<and> a \<le> e \<and> e \<le> total_tokens"
      "\<forall>t. 0 \<le> t \<and> t < total_tokens \<longrightarrow> (\<exists>(a, e) \<in> set ranges. a \<le> t \<and> t < e)"
    using parts_loop_props[of overlap_tokens balanced 0 total_tokens 0 num_parts] ov b n big assms(2)
    by (simp_all add: ranges_def Let_def)
  have sl: "map (\<lambda>(start_idx, end_idx). decode encoding (py_slice all_tokens start_idx end_idx)) ranges
          = map (\<lambda>(start_idx, end_idx). decode encoding (take (nat end_idx - nat start_idx)
                                                    (drop (nat start_idx) all_tokens))) ranges"
    using props(5) by (intro map_cong refl) (auto simp: py_slice_nonneg)
  have split: "split_text_into_balanced_parts encoding max_tokens_per_part overlap_percentage text
                 = Inr (map (\<lambda>(start_idx, end_idx).
                              decode encoding (take (nat end_idx - nat start_idx)
                                                    (drop (nat start_idx) all_tokens))) ranges)"
    using assms(1-4) big pr sl
    by (simp add: split_text_into_balanced_parts_def total_tokens_def[symmetric] all_tokens_def[symmetric] Let_def)
  show "\<exists>ranges.
               part_ranges max_tokens_per_part overlap_percentage total_tokens = Inr ranges
             \<and> split_text_into_balanced_parts encoding max_tokens_per_part overlap_percentage text
                 = Inr (map (\<lambda>(start_idx, end_idx).
                              decode encoding (take (nat end_idx - nat start_idx)
                                                    (drop (nat start_idx) all_tokens))) ranges)
             \<and> ranges \<noteq> []
             \<and> fst (hd ranges) = 0
             \<and> (\<forall>k. Suc k < length ranges \<longrightarrow>
                    fst (ranges ! Suc k) = snd (ranges ! k) - overlap_tokens)
             \<and> snd (last ranges) = total_tokens
             \<and> (\<forall>(start_idx, end_idx) \<in> set ranges.
                    0 \<le> start_idx \<and> start_idx \<le> end_idx \<and> end_idx \<le> total_tokens)
             \<and> (\<forall>t. 0 \<le> t \<and> t < total_tokens \<longrightarrow>
                    (\<exists>(start_idx, end_idx) \<in> set ranges. start_idx \<le> t \<and> t < end_idx))"
    using pr split props by blast
qed


theorem split_covers_all_tokens_witness:
  "''abcdefg'' \<noteq> [] \<and> (0 :: int) < 3 \<and> (0 :: rat) \<le> 1 / 3 \<and> (1 / 3 :: rat) < 1
   \<and> 3 < int (length (encode char_encoding ''abcdefg''))
   \<and> (\<exists>ranges. part_ranges 3 (1 / 3) (int (length (encode char_encoding ''abcdefg''))) = Inr ranges
         \<and> ranges \<noteq> [] \<and> fst (hd ranges) = 0 \<and> snd (last ranges) = 7)"
proof -
  have h: "''abcdefg'' \<noteq> []" "(0 :: int) < 3" "(0 :: rat) \<le> 1 / 3" "(1 / 3 :: rat) < 1"
    by simp_all
  have big: "3 < int (length (encode char_encoding ''abcdefg''))"
    by (simp add: char_encoding_def)
  from split_covers_all_tokens [OF h, of char_encoding] big
  obtain ranges where
    "part_ranges 3 (1 / 3) (int (length (encode char_encoding ''abcdefg''))) = Inr ranges"
    "ranges \<noteq> []" "fst (hd ranges) = 0"
    "snd (last ranges) = int (length (encode char_encoding ''abcdefg''))"
    by blast
  then have "\<exists>ranges. part_ranges 3 (1 / 3) (int (length (encode char_encoding ''abcdefg''))) = Inr ranges
         \<and> ranges \<noteq> [] \<and> fst (hd ranges) = 0 \<and> snd (last ranges) = 7"
    by (auto simp: char_encoding_def)
  with h big show ?thesis by blast
qed

section \<open>Properties of the keyword context finder\<close>

text \<open>
  C4. The constructor stores the window 4000 whatever window it is given, so
  \<open>find_contexts\<close> returns the same string for any two window arguments.
\<close>

theorem constructor_window_is_dead:
  "find_contexts (KeywordContextFinder keywords window1) text
     = find_contexts (KeywordContextFinder keywords window2) text
   \<and> window (KeywordContextFinder keywords window1) = 4000"
  by (simp add: KeywordContextFinder_def)

lemma word_boundary_Nil: "\<not> word_boundary [] p"
  by (auto simp: word_boundary_def)

lemma match_at_Nil: "match_at ic alts [] p adv = None"
  by (simp add: match_at_def find_None_iff alternative_at_def word_boundary_Nil)

lemma finditer_Nil: "finditer ic alts [] = []"
  by (simp add: finditer_def finditer_from.simps[of ic alts "[]"] match_at_Nil)

lemma contexts_loop_two:
  "contexts_loop w text [(start1, end1), (start2, end2)] None [] =
     (if max 0 (int start2 - w) \<le> min (int (length text)) (int end1 + w)
      then [py_slice text (max 0 (int start1 - w))
              (max (min (int (length text)) (int end1 + w)) (min (int (length text)) (int end2 + w)))]
      else [py_slice text (max 0 (int start1 - w)) (min (int (length text)) (int end1 + w)),
            py_slice text (max 0 (int start2 - w)) (min (int (length text)) (int end2 + w))])"
  by (simp add: Let_def)


text \<open>
  C8. When the pattern finds no match, \<open>find_contexts\<close> returns the empty string. When it
  finds exactly two matches, each is widened by the window and clipped to the text: if the
  second window starts at or before the end of the first, the result is the one region from
  the start of the first window to the larger of the two ends; otherwise it is the two
  regions with a single space between them. Newlines inside a region are replaced by spaces.
\<close>

theorem two_matches_merge_or_join:
  fixes self :: keyword_context_finder and "text" :: string
  defines "context_start \<equiv> \<lambda>start. max 0 (int start - window self)"
  defines "context_end \<equiv> \<lambda>end. min (int (length text)) (int end + window self)"
  shows "(finditer True (pattern self) text = [] \<longrightarrow> find_contexts self text = [])
       \<and> (finditer True (pattern self) text = [(start1, end1), (start2, end2)] \<longrightarrow>
            (context_start start2 \<le> context_end end1 \<longrightarrow>
               find_contexts self text =
                 replace_newlines (py_slice text (context_start start1)
                                      (max (context_end end1) (context_end end2))))
          \<and> (context_end end1 < context_start start2 \<longrightarrow>
               find_contexts self text =
                 replace_newlines (py_slice text (context_start start1) (context_end end1))
                 @ '' '' @
                 replace_newlines (py_slice text (context_start start2) (context_end end2))))"
proof (intro conjI impI)
  assume "finditer True (pattern self) text = []"
  then show "find_contexts self text = []" by (simp add: find_contexts_def)
next
  assume m: "finditer True (pattern self) text = [(start1, end1), (start2, end2)]"
  then have ne: "text \<noteq> []" using finditer_Nil[of True "pattern self"] by auto
  have fc: "find_contexts self text =
              join '' '' (map replace_newlines
                (contexts_loop (window self) text [(start1, end1), (start2, end2)] None []))"
    using m ne by (simp add: find_contexts_def process_contexts_def)
  assume "context_start start2 \<le> context_end end1"
  then have "contexts_loop (window self) text [(start1, end1), (start2, end2)] None [] =
               [py_slice text (context_start start1) (max (context_end end1) (context_end end2))]"
    unfolding contexts_loop_two context_start_def context_end_def by (rule if_P)
  with fc show "find_contexts self text =
                 replace_newlines (py_slice text (context_start start1)
                                      (max (context_end end1) (context_end end2)))"
    by simp
next
  assume m: "finditer True (pattern self) text = [(start1, end1), (start2, end2)]"
  then have ne: "text \<noteq> []" using finditer_Nil[of True "pattern self"] by auto
  have fc: "find_contexts self text =
              join '' '' (map replace_newlines
                (contexts_loop (window self) text [(start1, end1), (start2, end2)] None []))"
    using m ne by (simp add: find_contexts_def process_contexts_def)
  assume "context_end end1 < context_start start2"
  then have "\<not> context_start start2 \<le> context_end end1" by simp
  then have "contexts_loop (window self) text [(start1, end1), (start2, end2)] None [] =
               [py_slice text (context_start start1) (context_end end1),
                py_slice text (context_start start2) (context_end end2)]"
    unfolding contexts_loop_two context_start_def context_end_def by (rule if_not_P)
  with fc show "find_contexts self text =
                 replace_newlines (py_slice text (context_start start1) (context_end end1))
                 @ '' '' @
                 replace_newlines (py_slice text (context_start start2) (context_end end2))"
    by simp
qed


theorem two_matches_merge_or_join_witness:
  "finditer True (pattern (KeywordContextFinder location_keywords 1200)) ''basin range'' = [(0, 5), (6, 11)]
   \<and> find_contexts (KeywordContextFinder location_keywords 1200) ''basin range'' = ''basin range''
   \<and> finditer True (pattern \<lparr>window = 2, pattern = [''basin'']\<rparr>) ''a basin bcdefghijk basin xyz''
       = [(2, 7), (19, 24)]
   \<and> find_contexts \<lparr>window = 2, pattern = [''basin'']\<rparr> ''a basin bcdefghijk basin xyz''
       = ''a basin b k basin x''
   \<and> finditer True (pattern (KeywordContextFinder location_keywords 1200)) ''no keyword here'' = []
   \<and> find_contexts (KeywordContextFinder location_keywords 1200) ''no keyword here'' = []"
proof -
  let ?f = "KeywordContextFinder location_keywords 1200"
  let ?g = "\<lparr>window = 2, pattern = [''basin'']\<rparr>"
  have m1: "finditer True (pattern ?f) ''basin range'' = [(0, 5), (6, 11)]"
    by code_simp
  have m2: "finditer True (pattern ?g) ''a basin bcdefghijk basin xyz'' = [(2, 7), (19, 24)]"
    by code_simp
  have m3: "finditer True (pattern ?f) ''no keyword here'' = []"
    by code_simp
  have w: "window ?f = 4000" by (simp add: KeywordContextFinder_def)
  have "find_contexts ?f ''basin range''
          = replace_newlines (py_slice ''basin range'' 0 11)"
    using two_matches_merge_or_join [of ?f "''basin range''" 0 5 6 11] m1 by (simp add: w)
  also have "\<dots> = ''basin range''" by code_simp
  finally have r1: "find_contexts ?f ''basin range'' = ''basin range''" .
  have "find_contexts ?g ''a basin bcdefghijk basin xyz''
          = replace_newlines (py_slice ''a basin bcdefghijk basin xyz'' 0 9) @ '' '' @
            replace_newlines (py_slice ''a basin bcdefghijk basin xyz'' 17 26)"
    using two_matches_merge_or_join [of ?g "''a basin bcdefghijk basin xyz''" 2 7 19 24] m2 by simp
  also have "\<dots> = ''a basin b k basin x''" by code_simp
  finally have r2: "find_contexts ?g ''a basin bcdefghijk basin xyz'' = ''a basin b k basin x''" .
  have r3: "find_contexts ?f ''no keyword here'' = []"
    using two_matches_merge_or_join [of ?f "''no keyword here''" 0 0 0 0] m3 by simp
  from m1 r1 m2 r2 m3 r3 show ?thesis by blast
qed

section \<open>Properties of the abstract extractor\<close>

lemma bbox_scan_gap:
  assumes "body \<noteq> []"
    and "successively (\<lambda>u v. \<bar>w_x1 u - w_x0 v\<bar> \<le> 20) body"
    and "\<bar>w_x1 (last body) - w_x0 nxt\<bar> > 20" "\<bar>w_y0 nxt - w_y1 (last body)\<bar> > 5"
  shows "bbox_scan (body @ nxt # rest) i = i + int (length body) - 1"
  using assms
proof (induction body arbitrary: i rule: list_nonempty_induct)
  case (single a)
  then show ?case by simp
next
  case (cons a body)
  obtain b bs where body: "body = b # bs" using cons.hyps by (cases body) auto
  have nogap: "\<bar>w_x1 a - w_x0 b\<bar> \<le> 20" and succ: "successively (\<lambda>u v. \<bar>w_x1 u - w_x0 v\<bar> \<le> 20) body"
    using cons.prems(1) body by simp_all
  have "\<bar>w_x1 (last body) - w_x0 nxt\<bar> > 20" "\<bar>w_y0 nxt - w_y1 (last body)\<bar> > 5"
    using cons.prems(2,3) cons.hyps by simp_all
  with succ have IH: "bbox_scan (body @ nxt # rest) (i + 1) = i + 1 + int (length body) - 1"
    by (rule cons.IH)
  have "bbox_scan ((a # body) @ nxt # rest) i = bbox_scan (body @ nxt # rest) (i + 1)"
    using nogap body by simp
  with IH show ?case by simp
qed

lemma abstract_word_found:
  assumes "w_text a = ''Abstract''"
  shows "keyword_in_word ''abstract'' (a # ws) = Some 0"
proof -
  have "sublist (lower ''abstract'') (lower ''Abstract'')" by code_simp
  with assms show ?thesis by (simp add: keyword_in_word_def)
qed

lemma abstract_before_gap:
  assumes "w_text a = ''Abstract''" "body \<noteq> []"
    and "successively (\<lambda>u v. \<bar>w_x1 u - w_x0 v\<bar> \<le> 20) body"
    and "\<bar>w_x1 (last body) - w_x0 nxt\<bar> > 20" "\<bar>w_y0 nxt - w_y1 (last body)\<bar> > 5"
  shows "abstract_extractor (a # body @ nxt # rest) = join '' '' (map w_text body)"
proof -
  have "bbox_calculator (body @ nxt # rest) = int (length body) - 1"
    unfolding bbox_calculator_def using bbox_scan_gap[OF assms(2-5), of rest 0] by simp
  moreover have "py_slice (body @ nxt # rest) 0 (int (length body)) = body"
    by (simp add: py_slice_def slice_bound_def)
  ultimately show ?thesis
    using abstract_word_found[OF assms(1)] by (simp add: abstract_extractor_def)
qed

text \<open>
  C5, as stated: after the word \<^verbatim>\<open>Abstract\<close> and ten contiguous body words, a word more than
  20 units to the right of the tenth ends the abstract. Here the next word starts 50 units
  to the right, but its top is only 2 units from the bottom of the tenth word: the
  extractor does not stop and returns eleven words.
\<close>

theorem abstract_gap_without_drop_counterexample:
  "w_text sample_abstract_word = ''Abstract''
   \<and> length sample_body = 10
   \<and> successively (\<lambda>u v. w_x1 u = w_x0 v) sample_body
   \<and> w_x0 sample_heading_beside - w_x1 (last sample_body) > 20
   \<and> abstract_extractor (sample_abstract_word # sample_body @ [sample_heading_beside])
       = ''a b c d e f g h i j Introduction''
   \<and> abstract_extractor (sample_abstract_word # sample_body @ [sample_heading_beside])
       \<noteq> join '' '' (map w_text sample_body)"
  by code_simp

text \<open>
  C5, amended: for a page-one word list made of the word \<^verbatim>\<open>Abstract\<close>, then 10 body words
  no two consecutive of which are more than 20 units apart horizontally, then a word whose
  left edge is more than 20 units from the right edge of the 10th body word and whose top is
  more than 5 units from the bottom of the 10th body word (then any further words), the
  extractor returns the space-joined text of the 10 body words.
\<close>

theorem abstract_ends_at_gap:
  assumes "w_text a = ''Abstract''"
    and "length body = 10"
    and "successively (\<lambda>u v. \<bar>w_x1 u - w_x0 v\<bar> \<le> 20) body"
    and "\<bar>w_x1 (last body) - w_x0 nxt\<bar> > 20"
    and "\<bar>w_y0 nxt - w_y1 (last body)\<bar> > 5"
  shows "abstract_extractor (a # body @ nxt # rest) = join '' '' (map w_text body)"
proof -
  from assms(2) have "body \<noteq> []" by auto
  with assms(1) show ?thesis using assms(3-5) by (rule abstract_before_gap)
qed

theorem abstract_ends_at_gap_witness:
  "w_text sample_abstract_word = ''Abstract''
   \<and> length sample_body = 10
   \<and> successively (\<lambda>u v. \<bar>w_x1 u - w_x0 v\<bar> \<le> 20) sample_body
   \<and> \<bar>w_x1 (last sample_body) - w_x0 sample_heading_below\<bar> > 20
   \<and> \<bar>w_y0 sample_heading_below - w_y1 (last sample_body)\<bar> > 5
   \<and> abstract_extractor (sample_abstract_word # sample_body @ [sample_heading_below])
       = ''a b c d e f g h i j''"
proof -
  have h1: "w_text sample_abstract_word = ''Abstract''" by code_simp
  have h2: "length sample_body = 10" by code_simp
  have h3: "successively (\<lambda>u v. \<bar>w_x1 u - w_x0 v\<bar> \<le> 20) sample_body" by code_simp
  have h4: "\<bar>w_x1 (last sample_body) - w_x0 sample_heading_below\<bar> > 20" by code_simp
  have h5: "\<bar>w_y0 sample_heading_below - w_y1 (last sample_body)\<bar> > 5" by code_simp
  have j: "join '' '' (map w_text sample_body) = ''a b c d e f g h i j''" by code_simp
  from abstract_ends_at_gap [OF h1 h2 h3 h4 h5, of "[]"] j
  have "abstract_extractor (sample_abstract_word # sample_body @ [sample_heading_below])
          = ''a b c d e f g h i j''" by simp
  with h1 h2 h3 h4 h5 show ?thesis by blast
qed

section \<open>Properties of the page filter and of vertical pages\<close>

lemma is_word_inside_boxes:
  "\<forall>t \<in> set tables. is_box t \<Longrightarrow>
     is_word_inside_any_table w tables = Inr (\<exists>t \<in> set tables. word_strictly_inside w t)"
proof (induction tables)
  case Nil
  show ?case by simp
next
  case (Cons t tables)
  then obtain t0 t1 t2 t3 pg where t: "t = Box t0 t1 t2 t3 pg"
    by (cases t) (auto simp: is_box_def)
  from Cons show ?case by (auto simp: t word_strictly_inside_def)
qed

lemma process_page_with_tables_boxes:
  assumes "\<forall>t \<in> set tables. is_box t"
  shows "process_page_with_tables page_text tables min_y max_y =
           Inr (map w_text (filter (\<lambda>w. min_y < w_y0 w \<and> w_y0 w < max_y \<and>
                                          \<not> (\<exists>t \<in> set tables. word_strictly_inside w t)) page_text))"
proof (induction page_text)
  case Nil
  show ?case by simp
next
  case (Cons w page_text)
  show ?case
    by (simp add: Cons is_word_inside_boxes[OF assms])
qed


text \<open>
  C9. When every entry of the table list is a box, the filter keeps exactly the words whose
  top \<open>y0\<close> lies strictly between the two bounds and that are not strictly inside any of the
  boxes, in their order; \<open>process_page\<close> calls it with the bounds at 5% and 95% of the page
  height, and applies the same test with no box when no table was found. A word that touches
  or crosses the edge of a box is not strictly inside it, so it is kept.
\<close>

theorem page_filter_keeps_word_iff:
  assumes "extract_tables p table_pattern = Inr extracted"
    and "tables = (case extracted of None \<Rightarrow> [] | Some ts \<Rightarrow> ts)"
    and "\<forall>t \<in> set tables. is_box t"
  shows "process_page p page_text =
           Inr (map w_text (filter (\<lambda>w. p_height p * 0.05 < w_y0 w \<and> w_y0 w < p_height p * 0.95 \<and>
                                          \<not> (\<exists>t \<in> set tables. word_strictly_inside w t)) page_text))
       \<and> process_page_with_tables page_text tables min_y max_y =
           Inr (map w_text (filter (\<lambda>w. min_y < w_y0 w \<and> w_y0 w < max_y \<and>
                                          \<not> (\<exists>t \<in> set tables. word_strictly_inside w t)) page_text))"
proof
  show "process_page_with_tables page_text tables min_y max_y =
           Inr (map w_text (filter (\<lambda>w. min_y < w_y0 w \<and> w_y0 w < max_y \<and>
                                          \<not> (\<exists>t \<in> set tables. word_strictly_inside w t)) page_text))"
    by (rule process_page_with_tables_boxes[OF assms(3)])
  show "process_page p page_text =
           Inr (map w_text (filter (\<lambda>w. p_height p * 0.05 < w_y0 w \<and> w_y0 w < p_height p * 0.95 \<and>
                                          \<not> (\<exists>t \<in> set tables. word_strictly_inside w t)) page_text))"
  proof (cases "\<exists>t ts. extracted = Some (t # ts)")
    case True
    then obtain t ts where e: "extracted = Some (t # ts)" by blast
    then have tb: "tables = t # ts" using assms(2) by simp
    have "process_page p page_text =
            process_page_with_tables page_text tables (p_height p * 0.05) (p_height p * 0.95)"
      using assms(1) by (simp add: process_page_def e tb Let_def)
    then show ?thesis
      by (simp only: process_page_with_tables_boxes[OF assms(3)])
  next
    case False
    then have "extracted = None \<or> extracted = Some []"
      by (cases extracted; cases "the extracted") auto
    then have emp: "tables = []"
      and pp: "process_page p page_text =
             Inr (map w_text (filter (\<lambda>w. p_height p * 0.05 < w_y0 w \<and> w_y0 w < p_height p * 0.95) page_text))"
      using assms(1,2) by (auto simp: process_page_def Let_def)
    show ?thesis unfolding pp emp by simp
  qed
qed


theorem page_filter_keeps_word_iff_witness:
  "extract_tables sample_table_page table_pattern = Inr (Some [Box 49 119 301 199 (Some 2)])
   \<and> is_box (Box 49 119 301 199 (Some 2))
   \<and> process_page sample_table_page (p_words sample_table_page)
       = Inr [''overlap'', ''touch'', ''body'']"
proof -
  let ?tables = "[Box 49 119 301 199 (Some 2)]"
  have et: "extract_tables sample_table_page table_pattern = Inr (Some ?tables)"
    by code_simp
  have tb: "?tables = (case Some ?tables of None \<Rightarrow> [] | Some ts \<Rightarrow> ts)" by simp
  have bx: "\<forall>t \<in> set ?tables. is_box t" by (simp add: is_box_def)
  have ev: "map w_text (filter (\<lambda>w. p_height sample_table_page * 0.05 < w_y0 w
                                   \<and> w_y0 w < p_height sample_table_page * 0.95
                                   \<and> \<not> (\<exists>t \<in> set ?tables. word_strictly_inside w t))
                             (p_words sample_table_page))
              = [''overlap'', ''touch'', ''body'']"
    by code_simp
  from page_filter_keeps_word_iff [OF et tb bx, of "p_words sample_table_page"] ev
  have "process_page sample_table_page (p_words sample_table_page)
          = Inr [''overlap'', ''touch'', ''body'']"
    by simp
  with et bx show ?thesis by simp
qed









section \<open>Properties of the section trimmer\<close>


















end
